theory Spec2Isabelle
  imports Main "HOL-Library.AList"
begin

section \<open>Strings and exceptions\<close>

text \<open>
  A Python \<open>str\<close> is a sequence of code points. The model takes the code points below 256,
  one \<open>char\<close> each, so that \<open>length\<close> counts what \<open>len\<close> counts. On that range
  \<open>str.isdigit\<close> holds for \<open>0\<close>..\<open>9\<close> and for the superscript digits U+00B2, U+00B3 and
  U+00B9 (their Unicode Numeric_Type is Digit), while the regular expression class \<open>\d\<close>
  and \<open>int()\<close> take \<open>0\<close>..\<open>9\<close> only.
\<close>

datatype error = ValueError string | OverflowError string

definition is_decimal_char :: "char \<Rightarrow> bool" where
  "is_decimal_char c = (48 \<le> (of_char c :: nat) \<and> (of_char c :: nat) \<le> 57)"

definition isdigit_char :: "char \<Rightarrow> bool" where
  "isdigit_char c = (is_decimal_char c \<or> c = CHR 0xB2 \<or> c = CHR 0xB3 \<or> c = CHR 0xB9)"

definition str_isdigit :: "string \<Rightarrow> bool" where
  \<comment> \<open>\<open>str.isdigit()\<close>: every character is a digit and there is at least one character\<close>
  "str_isdigit s = (s \<noteq> [] \<and> list_all isdigit_char s)"

definition digit_value :: "char \<Rightarrow> int" where
  "digit_value c = int (of_char c) - 48"

definition int_str :: "string \<Rightarrow> int" where
  \<comment> \<open>\<open>int(s)\<close> on a text the regular expression matched: blanks around it are stripped,
      the decimal digits are read from the left\<close>
  "int_str s = foldl (\<lambda>a c. 10 * a + digit_value c) 0 (dropWhile (\<lambda>c. c = CHR '' '') s)"

definition digit_char :: "int \<Rightarrow> char" where
  "digit_char n = char_of (48 + nat n)"

definition zero_pad2 :: "int \<Rightarrow> string" where
  \<comment> \<open>\<open>%d\<close> and \<open>%m\<close> of \<open>strftime\<close>: two digits, zero padded\<close>
  "zero_pad2 n = [digit_char (n div 10), digit_char (n mod 10)]"

definition zero_pad4 :: "int \<Rightarrow> string" where
  \<comment> \<open>the documented form of \<open>%Y\<close>: four digits, zero padded\<close>
  "zero_pad4 n = [digit_char (n div 1000), digit_char (n div 100 mod 10),
                  digit_char (n div 10 mod 10), digit_char (n mod 10)]"

section \<open>Calendar dates (\<open>datetime.date\<close>)\<close>

record date =
  year :: int
  month :: int
  day :: int

definition MINYEAR :: int where "MINYEAR = 1"
definition MAXYEAR :: int where "MAXYEAR = 9999"
definition MAXORDINAL :: int where "MAXORDINAL = 3652059"

definition DAYS_IN_MONTH :: "int list" where
  "DAYS_IN_MONTH = [-1, 31, 28, 31, 30, 31, 30, 31, 31, 30, 31, 30, 31]"

definition DAYS_BEFORE_MONTH :: "int list" where
  "DAYS_BEFORE_MONTH = [-1, 0, 31, 59, 90, 120, 151, 181, 212, 243, 273, 304, 334]"

definition is_leap :: "int \<Rightarrow> bool" where
  "is_leap y = (y mod 4 = 0 \<and> (y mod 100 \<noteq> 0 \<or> y mod 400 = 0))"

definition days_before_year :: "int \<Rightarrow> int" where
  "days_before_year y = (let z = y - 1 in z * 365 + z div 4 - z div 100 + z div 400)"

definition days_in_month :: "int \<Rightarrow> int \<Rightarrow> int" where
  "days_in_month y m = (if m = 2 \<and> is_leap y then 29 else DAYS_IN_MONTH ! nat m)"

definition days_before_month :: "int \<Rightarrow> int \<Rightarrow> int" where
  "days_before_month y m = DAYS_BEFORE_MONTH ! nat m + (if m > 2 \<and> is_leap y then 1 else 0)"

definition ymd2ord :: "int \<Rightarrow> int \<Rightarrow> int \<Rightarrow> int" where
  "ymd2ord y m d = days_before_year y + days_before_month y m + d"

definition DI400Y :: int where "DI400Y = 146097"
definition DI100Y :: int where "DI100Y = 36524"
definition DI4Y :: int where "DI4Y = 1461"

definition ord2ymd :: "int \<Rightarrow> date" where
  "ord2ymd n0 =
    (let n = n0 - 1;
         n400 = n div DI400Y; n = n mod DI400Y;
         y = n400 * 400 + 1;
         n100 = n div DI100Y; n = n mod DI100Y;
         n4 = n div DI4Y; n = n mod DI4Y;
         n1 = n div 365; n = n mod 365;
         y = y + n100 * 100 + n4 * 4 + n1
     in if n1 = 4 \<or> n100 = 4 then \<lparr>year = y - 1, month = 12, day = 31\<rparr>
        else
          let leapyear = (n1 = 3 \<and> (n4 \<noteq> 24 \<or> n100 = 3));
              m = (n + 50) div 32;
              preceding = DAYS_BEFORE_MONTH ! nat m + (if m > 2 \<and> leapyear then 1 else 0)
          in if preceding > n
             then let m = m - 1;
                      preceding = preceding
                        - (DAYS_IN_MONTH ! nat m + (if m = 2 \<and> leapyear then 1 else 0))
                  in \<lparr>year = y, month = m, day = n - preceding + 1\<rparr>
             else \<lparr>year = y, month = m, day = n - preceding + 1\<rparr>)"

definition check_date_fields :: "int \<Rightarrow> int \<Rightarrow> int \<Rightarrow> error + date" where
  \<comment> \<open>the constructor \<open>date(year, month, day)\<close>\<close>
  "check_date_fields y m d =
    (if \<not> (MINYEAR \<le> y \<and> y \<le> MAXYEAR) then Inl (ValueError ''year must be in 1..9999'')
     else if \<not> (1 \<le> m \<and> m \<le> 12) then Inl (ValueError ''month must be in 1..12'')
     else if \<not> (1 \<le> d \<and> d \<le> days_in_month y m)
       then Inl (ValueError ''day is out of range for month'')
     else Inr \<lparr>year = y, month = m, day = d\<rparr>)"

definition toordinal :: "date \<Rightarrow> int" where
  "toordinal d = ymd2ord (year d) (month d) (day d)"

definition replace_year :: "date \<Rightarrow> int \<Rightarrow> error + date" where
  \<comment> \<open>\<open>d.replace(year=y)\<close>\<close>
  "replace_year d y = check_date_fields y (month d) (day d)"

definition date_lt :: "date \<Rightarrow> date \<Rightarrow> bool" where
  \<comment> \<open>\<open>a < b\<close>: the tuples (year, month, day) compared\<close>
  "date_lt a b = (year a < year b \<or> (year a = year b \<and>
      (month a < month b \<or> (month a = month b \<and> day a < day b))))"

definition date_le :: "date \<Rightarrow> date \<Rightarrow> bool" where
  "date_le a b = (date_lt a b \<or> (year a = year b \<and> month a = month b \<and> day a = day b))"

definition add_days :: "date \<Rightarrow> int \<Rightarrow> error + date" where
  \<comment> \<open>\<open>d + timedelta(days=n)\<close>\<close>
  "add_days d n =
    (let k = toordinal d + n
     in if 0 < k \<and> k \<le> MAXORDINAL then Inr (ord2ymd k)
        else Inl (OverflowError ''result out of range''))"

definition weekday :: "date \<Rightarrow> int" where
  "weekday d = (toordinal d + 6) mod 7"

section \<open>Parsing and printing dates (\<open>strptime\<close>, \<open>strftime\<close> with \<open>%d.%m.%Y\<close>)\<close>

text \<open>
  \<open>_strptime\<close> turns the format \<open>%d.%m.%Y\<close> into the regular expression
  \<^verbatim>\<open>(?P<d>3[0-1]|[1-2]\d|0[1-9]|[1-9]| [1-9])\.(?P<m>1[0-2]|0[1-9]|[1-9])\.(?P<Y>\d\d\d\d)\<close>,
  matches it at the start of the text, refuses text left over after the match and builds
  the date from the three groups. A matcher returns every way to match at the start of
  its input, most preferred first, which is the order in which backtracking tries them.
\<close>

type_synonym matcher = "string \<Rightarrow> (string \<times> string) list"

definition re_char :: "(char \<Rightarrow> bool) \<Rightarrow> matcher" where
  "re_char P s = (case s of [] \<Rightarrow> [] | c # cs \<Rightarrow> if P c then [([c], cs)] else [])"

definition re_seq :: "matcher \<Rightarrow> matcher \<Rightarrow> matcher" where
  "re_seq p q s = concat (map (\<lambda>(a, r). map (\<lambda>(b, r'). (a @ b, r')) (q r)) (p s))"

definition re_alt :: "matcher list \<Rightarrow> matcher" where
  "re_alt ps s = concat (map (\<lambda>p. p s) ps)"

definition in_range :: "char \<Rightarrow> char \<Rightarrow> char \<Rightarrow> bool" where
  "in_range lo hi c = ((of_char lo :: nat) \<le> of_char c \<and> (of_char c :: nat) \<le> of_char hi)"

definition re_lit :: "char \<Rightarrow> matcher" where
  "re_lit x = re_char (\<lambda>c. c = x)"

definition re_d :: matcher where
  "re_d = re_alt
     [re_seq (re_lit CHR ''3'') (re_char (in_range CHR ''0'' CHR ''1'')),
      re_seq (re_char (in_range CHR ''1'' CHR ''2'')) (re_char is_decimal_char),
      re_seq (re_lit CHR ''0'') (re_char (in_range CHR ''1'' CHR ''9'')),
      re_char (in_range CHR ''1'' CHR ''9''),
      re_seq (re_lit CHR '' '') (re_char (in_range CHR ''1'' CHR ''9''))]"

definition re_m :: matcher where
  "re_m = re_alt
     [re_seq (re_lit CHR ''1'') (re_char (in_range CHR ''0'' CHR ''2'')),
      re_seq (re_lit CHR ''0'') (re_char (in_range CHR ''1'' CHR ''9'')),
      re_char (in_range CHR ''1'' CHR ''9'')]"

definition re_Y :: matcher where
  "re_Y = re_seq (re_char is_decimal_char) (re_seq (re_char is_decimal_char)
            (re_seq (re_char is_decimal_char) (re_char is_decimal_char)))"

definition re_dmY :: "string \<Rightarrow> (string \<times> string \<times> string \<times> string) list" where
  \<comment> \<open>the groups d, m, Y and the unmatched rest, for every way the expression matches\<close>
  "re_dmY s =
     concat (map (\<lambda>(d, r1).
       concat (map (\<lambda>(p, r2).
         concat (map (\<lambda>(m, r3).
           concat (map (\<lambda>(q, r4).
             map (\<lambda>(y, r5). (d, m, y, r5)) (re_Y r4))
           (re_lit CHR ''.'' r3)))
         (re_m r2)))
       (re_lit CHR ''.'' r1)))
     (re_d s))"

definition strptime_dmY :: "string \<Rightarrow> error + date" where
  \<comment> \<open>\<open>datetime.strptime(s, "%d.%m.%Y").date()\<close>; every failure is a ValueError\<close>
  "strptime_dmY s =
     (case re_dmY s of
        [] \<Rightarrow> Inl (ValueError ''time data does not match format'')
      | (d, m, y, rest) # _ \<Rightarrow>
          if rest \<noteq> [] then Inl (ValueError ''unconverted data remains'')
          else check_date_fields (int_str y) (int_str m) (int_str d))"

text \<open>
  \<open>date.today()\<close> and the C library's rendering of \<open>%Y\<close> are not arguments of any
  function of the program: they come from the environment it runs in. (The documented
  rendering of a year is four zero-padded digits; the GNU C library prints a year below
  1000 without the padding.)
\<close>

record environment =
  date_today :: date
  strftime_Y :: "int \<Rightarrow> string"

definition strftime_dmY :: "'a environment_scheme \<Rightarrow> date \<Rightarrow> string" where
  "strftime_dmY env d =
     zero_pad2 (day d) @ ''.'' @ zero_pad2 (month d) @ ''.'' @ strftime_Y env (year d)"

section \<open>Fields\<close>

datatype field = Field (field_value: string)

definition field_str :: "field \<Rightarrow> string" where
  \<comment> \<open>\<open>Field.__str__\<close>\<close>
  "field_str f = field_value f"

definition Name_init :: "string \<Rightarrow> error + field" where
  \<comment> \<open>class Name has an empty body: \<open>Field.__init__\<close> stores the value unchecked\<close>
  "Name_init v = Inr (Field v)"

definition Phone_init :: "string \<Rightarrow> error + field" where
  "Phone_init v =
     (if \<not> (str_isdigit v \<and> length v = 10)
      then Inl (ValueError ''Phone number must contain exactly 10 digits.'')
      else Inr (Field v))"

definition Birthday_init :: "string \<Rightarrow> error + field" where
  "Birthday_init v =
     (case strptime_dmY v of
        Inl (ValueError _) \<Rightarrow> Inl (ValueError ''Invalid date format. Please use DD.MM.YYYY'')
      | Inl e \<Rightarrow> Inl e
      | Inr _ \<Rightarrow> Inr (Field v))"

definition to_date :: "field \<Rightarrow> error + date" where
  "to_date b = strptime_dmY (field_value b)"

section \<open>Record\<close>

text \<open>
  A method that can change its object or raise returns the outcome together with the
  object as it is after the call.
\<close>

record Record =
  name :: field
  phones :: "field list"
  birthday :: "field option"

definition Record_init :: "string \<Rightarrow> error + Record" where
  "Record_init n =
     (case Name_init n of
        Inl e \<Rightarrow> Inl e
      | Inr nm \<Rightarrow> Inr \<lparr>name = nm, phones = [], birthday = None\<rparr>)"

fun find_phone_in :: "field list \<Rightarrow> string \<Rightarrow> field option" where
  "find_phone_in [] phone = None"
| "find_phone_in (p # ps) phone =
     (if field_value p = phone then Some p else find_phone_in ps phone)"

definition find_phone :: "Record \<Rightarrow> string \<Rightarrow> field option" where
  "find_phone r phone = find_phone_in (phones r) phone"

definition add_phone :: "Record \<Rightarrow> string \<Rightarrow> (error + unit) \<times> Record" where
  "add_phone r phone =
     (case Phone_init phone of
        Inl e \<Rightarrow> (Inl e, r)
      | Inr p \<Rightarrow> (Inr (), r\<lparr>phones := phones r @ [p]\<rparr>))"

definition remove_phone :: "Record \<Rightarrow> string \<Rightarrow> (error + unit) \<times> Record" where
  "remove_phone r phone =
     (case find_phone r phone of
        None \<Rightarrow> (Inr (), r)
      | Some found_phone \<Rightarrow>
          if found_phone \<in> set (phones r)
          then (Inr (), r\<lparr>phones := remove1 found_phone (phones r)\<rparr>)
          else (Inl (ValueError ''list.remove(x): x not in list''), r))"

fun list_index :: "'a list \<Rightarrow> 'a \<Rightarrow> nat option" where
  "list_index [] x = None"
| "list_index (y # ys) x =
     (if y = x then Some 0 else map_option Suc (list_index ys x))"

definition edit_phone :: "Record \<Rightarrow> string \<Rightarrow> string \<Rightarrow> (error + unit) \<times> Record" where
  \<comment> \<open>in the assignment the right-hand side \<open>Phone(new_phone)\<close> is evaluated before the index\<close>
  "edit_phone r old_phone new_phone =
     (case find_phone r old_phone of
        None \<Rightarrow> (Inl (ValueError ''Old phone number not found.''), r)
      | Some found_phone \<Rightarrow>
          (case Phone_init new_phone of
             Inl e \<Rightarrow> (Inl e, r)
           | Inr p \<Rightarrow>
               (case list_index (phones r) found_phone of
                  None \<Rightarrow> (Inl (ValueError ''is not in list''), r)
                | Some i \<Rightarrow> (Inr (), r\<lparr>phones := (phones r)[i := p]\<rparr>))))"

definition add_birthday :: "Record \<Rightarrow> string \<Rightarrow> (error + unit) \<times> Record" where
  "add_birthday r b =
     (case Birthday_init b of
        Inl e \<Rightarrow> (Inl e, r)
      | Inr bd \<Rightarrow> (Inr (), r\<lparr>birthday := Some bd\<rparr>))"

section \<open>AddressBook\<close>

text \<open>
  The dictionary \<open>data\<close> keeps its keys in insertion order, and the birthday query
  iterates over it, so the book is an association list from names to records.
\<close>

type_synonym address_book = "(string \<times> Record) list"

definition add_record :: "address_book \<Rightarrow> Record \<Rightarrow> address_book" where
  "add_record book r = AList.update (field_value (name r)) r book"

definition find_record :: "address_book \<Rightarrow> string \<Rightarrow> Record option" where
  \<comment> \<open>\<open>AddressBook.find\<close>\<close>
  "find_record book n = map_of book n"

definition delete_record :: "address_book \<Rightarrow> string \<Rightarrow> address_book" where
  \<comment> \<open>\<open>AddressBook.delete\<close>\<close>
  "delete_record book n = AList.delete n book"

definition move_to_monday_if_weekend :: "date \<Rightarrow> error + date" where
  "move_to_monday_if_weekend d =
     (let wd = weekday d
      in if wd = 5 then add_days d 2
         else if wd = 6 then add_days d 1
         else Inr d)"

definition get_congrats_date :: "Record \<Rightarrow> date \<Rightarrow> error + date option" where
  "get_congrats_date r today =
     (case birthday r of
        None \<Rightarrow> Inr None
      | Some b \<Rightarrow>
          (case to_date b of
             Inl e \<Rightarrow> Inl e
           | Inr bday \<Rightarrow>
               (case replace_year bday (year today) of
                  Inl (ValueError _) \<Rightarrow> Inr None
                | Inl e \<Rightarrow> Inl e
                | Inr bday_this_year \<Rightarrow>
                    if date_lt bday_this_year today
                    then (case replace_year bday (year today + 1) of
                            Inl (ValueError _) \<Rightarrow> Inr None
                          | Inl e \<Rightarrow> Inl e
                          | Inr bday_next_year \<Rightarrow>
                              map_sum id Some (move_to_monday_if_weekend bday_next_year))
                    else map_sum id Some (move_to_monday_if_weekend bday_this_year))))"

type_synonym upcoming = "(string \<times> string) list"

fun upcoming_loop ::
  "'a environment_scheme \<Rightarrow> date \<Rightarrow> date \<Rightarrow> Record list \<Rightarrow> upcoming list \<Rightarrow> error + upcoming list"
where
  "upcoming_loop env today end_day [] result = Inr result"
| "upcoming_loop env today end_day (r # rs) result =
     (case get_congrats_date r today of
        Inl e \<Rightarrow> Inl e
      | Inr None \<Rightarrow> upcoming_loop env today end_day rs result
      | Inr (Some congrats) \<Rightarrow>
          if date_le today congrats \<and> date_le congrats end_day
          then upcoming_loop env today end_day rs
                 (result @ [[(''name'', field_value (name r)),
                             (''birthday'', strftime_dmY env congrats)]])
          else upcoming_loop env today end_day rs result)"

definition get_upcoming_birthdays ::
  "'a environment_scheme \<Rightarrow> address_book \<Rightarrow> (error + upcoming list) \<times> address_book"
where
  "get_upcoming_birthdays env book =
     (let today = date_today env
      in case add_days today 7 of
           Inl e \<Rightarrow> (Inl e, book)
         | Inr end_day \<Rightarrow> (upcoming_loop env today end_day (map snd book) [], book))"

section \<open>Reference predicates and sample data\<close>

fun dmY_fields :: "string \<Rightarrow> (int \<times> int \<times> int) option" where
  \<comment> \<open>the strict shape DD.MM.YYYY (two, two and four decimal digits, dot separated) and
      the day, month and year it denotes\<close>
  "dmY_fields [d1, d2, p, m1, m2, q, y1, y2, y3, y4] =
     (if p = CHR ''.'' \<and> q = CHR ''.'' \<and> list_all is_decimal_char [d1, d2, m1, m2, y1, y2, y3, y4]
      then Some (10 * digit_value d1 + digit_value d2,
                 10 * digit_value m1 + digit_value m2,
                 1000 * digit_value y1 + 100 * digit_value y2 + 10 * digit_value y3 + digit_value y4)
      else None)"
| "dmY_fields _ = None"

definition month_length :: "int \<Rightarrow> int \<Rightarrow> int" where
  \<comment> \<open>the Gregorian calendar, stated without the tables of the library\<close>
  "month_length y m =
     (if m = 4 \<or> m = 6 \<or> m = 9 \<or> m = 11 then 30
      else if m = 2 then (if y mod 400 = 0 \<or> (y mod 4 = 0 \<and> y mod 100 \<noteq> 0) then 29 else 28)
      else 31)"

definition real_calendar_date :: "int \<Rightarrow> int \<Rightarrow> int \<Rightarrow> bool" where
  \<comment> \<open>a day of a year 1..9999, the range of \<open>datetime.date\<close>\<close>
  "real_calendar_date y m d =
     (1 \<le> y \<and> y \<le> 9999 \<and> 1 \<le> m \<and> m \<le> 12 \<and> 1 \<le> d \<and> d \<le> month_length y m)"

definition phones_valid :: "Record \<Rightarrow> bool" where
  \<comment> \<open>every entry of \<open>phones\<close> holds a PhoneNumber: exactly ten decimal digits\<close>
  "phones_valid r =
     list_all (\<lambda>p. length (field_value p) = 10 \<and> list_all is_decimal_char (field_value p))
       (phones r)"

definition env_at :: "int \<Rightarrow> int \<Rightarrow> int \<Rightarrow> environment" where
  \<comment> \<open>an environment whose clock reads the given day and whose \<open>%Y\<close> is the documented one\<close>
  "env_at y m d = \<lparr>date_today = \<lparr>year = y, month = m, day = d\<rparr>, strftime_Y = zero_pad4\<rparr>"

definition unpadded_Y :: "int \<Rightarrow> string" where
  \<comment> \<open>\<open>%Y\<close> as the GNU C library prints a year 1..9999: its decimal digits, not padded\<close>
  "unpadded_Y n =
     (if n < 10 then [digit_char n]
      else if n < 100 then [digit_char (n div 10), digit_char (n mod 10)]
      else if n < 1000
        then [digit_char (n div 100), digit_char (n div 10 mod 10), digit_char (n mod 10)]
      else zero_pad4 n)"

definition env_unpadded_at :: "int \<Rightarrow> int \<Rightarrow> int \<Rightarrow> environment" where
  \<comment> \<open>an environment whose clock reads the given day and whose \<open>%Y\<close> is not padded\<close>
  "env_unpadded_at y m d =
     \<lparr>date_today = \<lparr>year = y, month = m, day = d\<rparr>, strftime_Y = unpadded_Y\<rparr>"

definition contact :: "string \<Rightarrow> string list \<Rightarrow> string \<Rightarrow> Record" where
  \<comment> \<open>a record with the given name, phone values and birthday text\<close>
  "contact n ps b = \<lparr>name = Field n, phones = map Field ps, birthday = Some (Field b)\<rparr>"

definition superscript_phone :: string where
  \<comment> \<open>ten times U+00B2, SUPERSCRIPT TWO\<close>
  "superscript_phone = replicate 10 (CHR 0xB2)"

section \<open>Parsing a date: facts about the library model\<close>

lemma re_char_Cons [simp]: "re_char P (c # cs) = (if P c then [([c], cs)] else [])"
  by (simp add: re_char_def)
lemma re_char_Nil [simp]: "re_char P [] = []"
  by (simp add: re_char_def)

lemma char_eqI: "(of_char c :: nat) = n \<Longrightarrow> (of_char d :: nat) = n \<Longrightarrow> c = d"
  by (simp only: flip: of_char_eq_iff [where ?'a = nat])

lemma decimal_char_cases:
  assumes "is_decimal_char c"
  shows "c = CHR ''0'' \<or> c = CHR ''1'' \<or> c = CHR ''2'' \<or> c = CHR ''3'' \<or> c = CHR ''4''
      \<or> c = CHR ''5'' \<or> c = CHR ''6'' \<or> c = CHR ''7'' \<or> c = CHR ''8'' \<or> c = CHR ''9''"
proof -
  have "(of_char c :: nat) = 48 \<or> (of_char c :: nat) = 49 \<or> (of_char c :: nat) = 50
    \<or> (of_char c :: nat) = 51 \<or> (of_char c :: nat) = 52 \<or> (of_char c :: nat) = 53
    \<or> (of_char c :: nat) = 54 \<or> (of_char c :: nat) = 55 \<or> (of_char c :: nat) = 56
    \<or> (of_char c :: nat) = 57"
    using assms unfolding is_decimal_char_def by arith
  then show ?thesis
    by (elim disjE) (simp_all add: char_eqI)
qed

lemma digit_value_simps [simp]:
  "digit_value CHR ''0'' = 0" "digit_value CHR ''1'' = 1" "digit_value CHR ''2'' = 2"
  "digit_value CHR ''3'' = 3" "digit_value CHR ''4'' = 4" "digit_value CHR ''5'' = 5"
  "digit_value CHR ''6'' = 6" "digit_value CHR ''7'' = 7" "digit_value CHR ''8'' = 8"
  "digit_value CHR ''9'' = 9"
  by (simp_all add: digit_value_def)


lemma day_stage:
  assumes "is_decimal_char a" "is_decimal_char b"
    and "1 \<le> 10 * digit_value a + digit_value b" "10 * digit_value a + digit_value b \<le> 31"
  shows "concat (map (\<lambda>(d, r1). concat (map (\<lambda>(p, r2). G d r2) (re_lit CHR ''.'' r1)))
           (re_d (a # b # CHR ''.'' # rest))) = G [a, b] rest"
  using decimal_char_cases[OF assms(1)] decimal_char_cases[OF assms(2)] assms(3,4)
  by (elim disjE)
     (simp_all add: re_d_def re_alt_def re_seq_def re_lit_def in_range_def is_decimal_char_def)

lemma month_stage:
  assumes "is_decimal_char a" "is_decimal_char b"
    and "1 \<le> 10 * digit_value a + digit_value b" "10 * digit_value a + digit_value b \<le> 12"
  shows "concat (map (\<lambda>(d, r1). concat (map (\<lambda>(p, r2). G d r2) (re_lit CHR ''.'' r1)))
           (re_m (a # b # CHR ''.'' # rest))) = G [a, b] rest"
  using decimal_char_cases[OF assms(1)] decimal_char_cases[OF assms(2)] assms(3,4)
  by (elim disjE)
     (simp_all add: re_m_def re_alt_def re_seq_def re_lit_def in_range_def is_decimal_char_def)

lemma year_stage:
  assumes "is_decimal_char a" "is_decimal_char b" "is_decimal_char c" "is_decimal_char d"
  shows "re_Y (a # b # c # d # rest) = [([a, b, c, d], rest)]"
  using assms by (simp add: re_Y_def re_seq_def)


lemma re_dmY_strict:
  assumes "is_decimal_char d1" "is_decimal_char d2"
    and "1 \<le> 10 * digit_value d1 + digit_value d2" "10 * digit_value d1 + digit_value d2 \<le> 31"
    and "is_decimal_char m1" "is_decimal_char m2"
    and "1 \<le> 10 * digit_value m1 + digit_value m2" "10 * digit_value m1 + digit_value m2 \<le> 12"
    and "is_decimal_char y1" "is_decimal_char y2" "is_decimal_char y3" "is_decimal_char y4"
  shows "re_dmY [d1, d2, CHR ''.'', m1, m2, CHR ''.'', y1, y2, y3, y4]
         = [([d1, d2], [m1, m2], [y1, y2, y3, y4], [])]"
  unfolding re_dmY_def
  by (simp add: day_stage[OF assms(1-4)] month_stage[OF assms(5-8)] year_stage[OF assms(9-12)])

lemma int_str2:
  assumes "is_decimal_char a"
  shows "int_str [a, b] = 10 * digit_value a + digit_value b"
  using decimal_char_cases[OF assms] by (elim disjE) (simp_all add: int_str_def)

lemma int_str4:
  assumes "is_decimal_char a"
  shows "int_str [a, b, c, d]
         = 1000 * digit_value a + 100 * digit_value b + 10 * digit_value c + digit_value d"
  using decimal_char_cases[OF assms] by (elim disjE) (simp_all add: int_str_def)

lemma mod_400_4: "(y::int) mod 400 = 0 \<Longrightarrow> y mod 4 = 0"
proof -
  assume "y mod 400 = 0"
  then have "400 dvd y" by (simp add: mod_eq_0_iff_dvd)
  moreover have "(4::int) dvd 400" by simp
  ultimately have "4 dvd y" by (rule dvd_trans[rotated])
  then show ?thesis by (simp add: mod_eq_0_iff_dvd)
qed

lemma is_leap_iff: "is_leap y \<longleftrightarrow> (y mod 400 = 0 \<or> (y mod 4 = 0 \<and> y mod 100 \<noteq> 0))"
  unfolding is_leap_def using mod_400_4[of y] by auto

lemma days_in_month_eq: "1 \<le> m \<Longrightarrow> m \<le> 12 \<Longrightarrow> days_in_month y m = month_length y m"
proof -
  assume "1 \<le> m" "m \<le> 12"
  then have "m = 1 \<or> m = 2 \<or> m = 3 \<or> m = 4 \<or> m = 5 \<or> m = 6 \<or> m = 7 \<or> m = 8 \<or> m = 9 \<or> m = 10 \<or> m = 11 \<or> m = 12"
    by arith
  then show ?thesis
    by (elim disjE) (simp_all add: days_in_month_def month_length_def DAYS_IN_MONTH_def is_leap_iff)
qed

lemma check_date_fields_real:
  "real_calendar_date y m d \<Longrightarrow> check_date_fields y m d = Inr \<lparr>year = y, month = m, day = d\<rparr>"
  by (simp add: real_calendar_date_def check_date_fields_def MINYEAR_def MAXYEAR_def days_in_month_eq)

lemma check_date_fields_Inr:
  "check_date_fields y m d = Inr x \<Longrightarrow>
   real_calendar_date y m d \<and> x = \<lparr>year = y, month = m, day = d\<rparr>"
  by (auto simp add: real_calendar_date_def check_date_fields_def MINYEAR_def MAXYEAR_def
      days_in_month_eq split: if_splits)

lemma month_length_le: "month_length y m \<le> 31"
  by (simp add: month_length_def)


lemma strptime_strict:
  assumes "dmY_fields s = Some (d, m, y)" and "real_calendar_date y m d"
  shows "strptime_dmY s = Inr \<lparr>year = y, month = m, day = d\<rparr>"
proof -
  from assms(1) obtain d1 d2 m1 m2 y1 y2 y3 y4
    where s: "s = [d1, d2, CHR ''.'', m1, m2, CHR ''.'', y1, y2, y3, y4]"
      and dec: "is_decimal_char d1" "is_decimal_char d2" "is_decimal_char m1"
        "is_decimal_char m2" "is_decimal_char y1" "is_decimal_char y2" "is_decimal_char y3"
        "is_decimal_char y4"
      and day: "d = 10 * digit_value d1 + digit_value d2"
      and mon: "m = 10 * digit_value m1 + digit_value m2"
      and yr: "y = 1000 * digit_value y1 + 100 * digit_value y2 + 10 * digit_value y3 + digit_value y4"
    by (elim dmY_fields.elims) (simp_all split: if_splits)
  from assms(2) have rng: "1 \<le> d" "d \<le> 31" "1 \<le> m" "m \<le> 12"
    using month_length_le[of y m] by (simp_all add: real_calendar_date_def)
  have mt: "re_dmY [d1, d2, CHR ''.'', m1, m2, CHR ''.'', y1, y2, y3, y4]
             = [([d1, d2], [m1, m2], [y1, y2, y3, y4], [])]"
    using rng dec by (intro re_dmY_strict) (simp_all add: day mon)
  have "strptime_dmY s = check_date_fields y m d"
    unfolding s strptime_dmY_def mt
    by (simp add: int_str2 int_str4 dec day mon yr)
  then show ?thesis by (simp add: check_date_fields_real[OF assms(2)])
qed

lemma digit_value_range: "is_decimal_char c \<Longrightarrow> 0 \<le> digit_value c \<and> digit_value c \<le> 9"
  by (simp add: is_decimal_char_def digit_value_def)

lemma digit_char_value:
  assumes "is_decimal_char c"
  shows "digit_char (digit_value c) = c"
proof -
  have "48 + nat (int (of_char c) - 48) = (of_char c :: nat)"
    using assms unfolding is_decimal_char_def by linarith
  then show ?thesis unfolding digit_value_def digit_char_def by (simp only: char_of_char)
qed

lemma zero_pad2_digits:
  assumes "0 \<le> a" "a \<le> 9" "0 \<le> b" "b \<le> 9"
  shows "zero_pad2 (10 * a + b) = [digit_char a, digit_char b]"
proof -
  have "(10 * a + b) div 10 = a" "(10 * a + b) mod 10 = b" using assms by simp_all
  then show ?thesis by (simp add: zero_pad2_def)
qed

lemma split_digit:
  assumes "0 \<le> r" "r < k" 
  shows "(k * q + r) div k = (q::int)" "(k * q + r) mod k = r"
  using assms by simp_all

lemma zero_pad4_digits:
  assumes "0 \<le> a" "a \<le> 9" "0 \<le> b" "b \<le> 9" "0 \<le> c" "c \<le> 9" "0 \<le> d" "d \<le> 9"
  shows "zero_pad4 (1000 * a + 100 * b + 10 * c + d)
         = [digit_char a, digit_char b, digit_char c, digit_char d]"
proof -
  define n where "n = 1000 * a + 100 * b + 10 * c + d"
  have n1: "n = 1000 * a + (100 * b + 10 * c + d)" 
    and n2: "n = 100 * (10 * a + b) + (10 * c + d)"
    and n3: "n = 10 * (100 * a + 10 * b + c) + d"
    by (simp_all add: n_def)
  have "n div 1000 = a"
    unfolding n1 using assms by (intro split_digit) simp_all
  moreover have "n div 100 = 10 * a + b"
    unfolding n2 using assms by (intro split_digit) simp_all
  moreover have "(10 * a + b) mod 10 = b"
    using assms by (intro split_digit) simp_all
  moreover have "n div 10 = 10 * (10 * a + b) + c"
    unfolding n3 using assms by (intro split_digit[where q = "100 * a + 10 * b + c", THEN trans]) simp_all
  moreover have "(10 * (10 * a + b) + c) mod 10 = c"
    using assms by (intro split_digit) simp_all
  moreover have "n mod 10 = d"
    unfolding n3 using assms by (intro split_digit) simp_all
  ultimately show ?thesis unfolding n_def[symmetric] by (simp add: zero_pad4_def)
qed


lemma strftime_strict:
  assumes "dmY_fields s = Some (d, m, y)" and "strftime_Y env y = zero_pad4 y"
  shows "strftime_dmY env \<lparr>year = y, month = m, day = d\<rparr> = s"
proof -
  from assms(1) obtain d1 d2 m1 m2 y1 y2 y3 y4
    where s: "s = [d1, d2, CHR ''.'', m1, m2, CHR ''.'', y1, y2, y3, y4]"
      and dec: "is_decimal_char d1" "is_decimal_char d2" "is_decimal_char m1"
        "is_decimal_char m2" "is_decimal_char y1" "is_decimal_char y2" "is_decimal_char y3"
        "is_decimal_char y4"
      and day: "d = 10 * digit_value d1 + digit_value d2"
      and mon: "m = 10 * digit_value m1 + digit_value m2"
      and yr: "y = 1000 * digit_value y1 + 100 * digit_value y2 + 10 * digit_value y3 + digit_value y4"
    by (elim dmY_fields.elims) (simp_all split: if_splits)
  have "zero_pad2 d = [d1, d2]"
    unfolding day using dec by (simp add: zero_pad2_digits digit_value_range digit_char_value)
  moreover have "zero_pad2 m = [m1, m2]"
    unfolding mon using dec by (simp add: zero_pad2_digits digit_value_range digit_char_value)
  moreover have "zero_pad4 y = [y1, y2, y3, y4]"
    unfolding yr using dec by (simp add: zero_pad4_digits digit_value_range digit_char_value)
  ultimately show ?thesis by (simp add: strftime_dmY_def assms(2) s)
qed

lemma unpadded_Y_four_digits: "1000 \<le> y \<Longrightarrow> unpadded_Y y = zero_pad4 y"
  by (simp add: unpadded_Y_def)

section \<open>Birthdays\<close>

lemma Birthday_init_value: "Birthday_init s = Inr b \<Longrightarrow> b = Field s"
  by (auto simp: Birthday_init_def split: sum.splits error.splits)

text \<open>
  C7. For a text of the strict shape DD.MM.YYYY that denotes a real calendar date,
  rendering the parsed date back to text is expected to give the same text. Where \<open>%Y\<close>
  is printed without padding, it does not for a year below 1000: "15.03.0999" is accepted
  and parses to 15 March 999, and that date is printed as "15.03.999".
\<close>

theorem Birthday_round_trip_fails_below_1000:
  "dmY_fields ''15.03.0999'' = Some (15, 3, 999)
   \<and> real_calendar_date 999 3 15
   \<and> Birthday_init ''15.03.0999'' = Inr (Field ''15.03.0999'')
   \<and> to_date (Field ''15.03.0999'') = Inr \<lparr>year = 999, month = 3, day = 15\<rparr>
   \<and> strftime_dmY (env_unpadded_at 2024 3 10) \<lparr>year = 999, month = 3, day = 15\<rparr>
       = ''15.03.999''
   \<and> strftime_dmY (env_unpadded_at 2024 3 10) \<lparr>year = 999, month = 3, day = 15\<rparr>
       \<noteq> ''15.03.0999''"
proof -
  have h1: "dmY_fields ''15.03.0999'' = Some (15, 3, 999)"
    by (simp add: is_decimal_char_def)
  have h2: "real_calendar_date 999 3 15"
    by (simp add: real_calendar_date_def month_length_def)
  have p: "strptime_dmY ''15.03.0999'' = Inr \<lparr>year = 999, month = 3, day = 15\<rparr>"
    by (rule strptime_strict[OF h1 h2])
  have r: "strftime_dmY (env_unpadded_at 2024 3 10) \<lparr>year = 999, month = 3, day = 15\<rparr>
       = ''15.03.999''"
    by code_simp
  from h1 h2 p r show ?thesis
    by (simp add: Birthday_init_def to_date_def)
qed

text \<open>
  C7, as the code has it. For every text of the strict shape DD.MM.YYYY that denotes a
  real calendar date, Birthday construction succeeds; the Birthday's own text (\<open>__str__\<close>)
  is the same text; the date it parses to is the denoted one; and printing that date with
  \<open>%d.%m.%Y\<close> gives the same text again where \<open>%Y\<close> is padded to four digits, and also
  where it is not padded when the year is 1000 or later.
\<close>

theorem Birthday_round_trip:
  assumes "dmY_fields s = Some (d, m, y)" and "real_calendar_date y m d"
  shows "Birthday_init s = Inr (Field s)
         \<and> field_str (Field s) = s
         \<and> to_date (Field s) = Inr \<lparr>year = y, month = m, day = d\<rparr>
         \<and> (strftime_Y env = zero_pad4 \<or> (strftime_Y env = unpadded_Y \<and> 1000 \<le> y) \<longrightarrow>
              strftime_dmY env \<lparr>year = y, month = m, day = d\<rparr> = s)"
proof -
  have "strftime_dmY env \<lparr>year = y, month = m, day = d\<rparr> = s"
    if "strftime_Y env = zero_pad4 \<or> (strftime_Y env = unpadded_Y \<and> 1000 \<le> y)"
  proof -
    from that have "strftime_Y env y = zero_pad4 y"
      using unpadded_Y_four_digits[of y] by auto
    then show ?thesis by (rule strftime_strict[OF assms(1)])
  qed
  then show ?thesis
    using strptime_strict[OF assms]
    by (simp add: Birthday_init_def to_date_def field_str_def)
qed

theorem Birthday_round_trip_witness:
  "dmY_fields ''15.03.1990'' = Some (15, 3, 1990)
   \<and> real_calendar_date 1990 3 15
   \<and> Birthday_init ''15.03.1990'' = Inr (Field ''15.03.1990'')
   \<and> field_str (Field ''15.03.1990'') = ''15.03.1990''
   \<and> to_date (Field ''15.03.1990'') = Inr \<lparr>year = 1990, month = 3, day = 15\<rparr>
   \<and> strftime_dmY (env_at 2024 3 10) \<lparr>year = 1990, month = 3, day = 15\<rparr> = ''15.03.1990''
   \<and> strftime_dmY (env_unpadded_at 2024 3 10) \<lparr>year = 1990, month = 3, day = 15\<rparr>
       = ''15.03.1990''"
proof -
  have h1: "dmY_fields ''15.03.1990'' = Some (15, 3, 1990)"
    by (simp add: is_decimal_char_def)
  have h2: "real_calendar_date 1990 3 15"
    by (simp add: real_calendar_date_def month_length_def)
  have h3: "strftime_Y (env_at 2024 3 10) = zero_pad4"
    by (simp add: env_at_def)
  have h4: "strftime_Y (env_unpadded_at 2024 3 10) = unpadded_Y \<and> (1000::int) \<le> 1990"
    by (simp add: env_unpadded_at_def)
  show ?thesis
    using Birthday_round_trip[OF h1 h2, of "env_at 2024 3 10"]
      Birthday_round_trip[OF h1 h2, of "env_unpadded_at 2024 3 10"] h1 h2 h3 h4
    by simp
qed

text \<open>
  C9. Some texts that are not of the strict zero-padded shape are accepted: for "5.3.1990"
  Birthday construction succeeds, the stored value is that text unchanged, and it parses
  to 5 March 1990.
\<close>

theorem Birthday_init_accepts_unpadded:
  "dmY_fields ''5.3.1990'' = None
   \<and> Birthday_init ''5.3.1990'' = Inr (Field ''5.3.1990'')
   \<and> field_value (Field ''5.3.1990'') = ''5.3.1990''
   \<and> to_date (Field ''5.3.1990'') = Inr \<lparr>year = 1990, month = 3, day = 5\<rparr>"
proof -
  have "re_dmY ''5.3.1990'' = [(''5'', ''3'', ''1990'', [])]"
    by (simp add: re_dmY_def re_d_def re_m_def re_Y_def re_alt_def re_seq_def re_lit_def
        in_range_def is_decimal_char_def)
  moreover have "int_str ''5'' = 5" "int_str ''3'' = 3" "int_str ''1990'' = 1990"
    by (simp_all add: int_str_def)
  moreover have "real_calendar_date 1990 3 5"
    by (simp add: real_calendar_date_def month_length_def)
  ultimately have "strptime_dmY ''5.3.1990'' = Inr \<lparr>year = 1990, month = 3, day = 5\<rparr>"
    by (simp add: strptime_dmY_def check_date_fields_real)
  then show ?thesis by (simp add: Birthday_init_def to_date_def)
qed

theorem Birthday_init_accepts_unpadded_witness:
  "\<exists>b. Birthday_init ''5.3.1990'' = Inr b \<and> field_value b = ''5.3.1990''"
  using Birthday_init_accepts_unpadded by simp

section \<open>Record construction\<close>

lemma Record_init_total:
  "Record_init n = Inr \<lparr>name = Field n, phones = [], birthday = None\<rparr>"
  by (simp add: Record_init_def Name_init_def)

text \<open>
  C2. Constructing a Record with the empty name is expected to fail. The constructor has
  no check: with the empty name (the empty list of characters) it returns a record
  whose name is empty.
\<close>

theorem Record_init_accepts_empty_name:
  "Record_init [] = Inr \<lparr>name = Field [], phones = [], birthday = None\<rparr>"
  by (simp add: Record_init_def Name_init_def)

section \<open>Phone numbers\<close>

lemma Phone_init_accepts_iff:
  "(\<exists>p. Phone_init v = Inr p) \<longleftrightarrow> (length v = 10 \<and> list_all isdigit_char v)"
  by (auto simp: Phone_init_def str_isdigit_def)

lemma Phone_init_value:
  "Phone_init v = Inr p \<Longrightarrow> p = Field v \<and> length v = 10 \<and> list_all isdigit_char v"
  by (auto simp: Phone_init_def str_isdigit_def split: if_splits)

lemma Phone_init_rejects:
  "\<not> (length v = 10 \<and> list_all isdigit_char v) \<Longrightarrow>
   Phone_init v = Inl (ValueError ''Phone number must contain exactly 10 digits.'')"
  by (auto simp: Phone_init_def str_isdigit_def)

lemma Phone_init_decimal:
  "length v = 10 \<Longrightarrow> list_all is_decimal_char v \<Longrightarrow> Phone_init v = Inr (Field v)"
  by (auto simp: Phone_init_def str_isdigit_def isdigit_char_def list_all_iff)

text \<open>
  C5. A phone is expected to be accepted only when it is ten decimal digits. The check
  is \<open>str.isdigit\<close>, which also holds for the superscript digits: ten times
  SUPERSCRIPT TWO is accepted although none of its characters is a decimal digit.
\<close>

theorem Phone_init_accepts_superscripts:
  "Phone_init superscript_phone = Inr (Field superscript_phone)
   \<and> length superscript_phone = 10
   \<and> list_all (\<lambda>c. \<not> is_decimal_char c) superscript_phone"
  by (simp add: Phone_init_def superscript_phone_def str_isdigit_def isdigit_char_def
      is_decimal_char_def list_all_iff)

section \<open>Operations on the phones of a Record\<close>

lemma find_phone_in_None:
  "find_phone_in ps v = None \<longleftrightarrow> v \<notin> field_value ` set ps"
  by (induction ps) auto

lemma find_phone_in_Some:
  "find_phone_in ps v = Some p \<Longrightarrow>
   \<exists>i. i < length ps \<and> ps ! i = p \<and> field_value p = v
       \<and> (\<forall>j<i. field_value (ps ! j) \<noteq> v) \<and> list_index ps p = Some i"
proof (induction ps)
  case Nil
  then show ?case by simp
next
  case (Cons q qs)
  show ?case
  proof (cases "field_value q = v")
    case True
    with Cons.prems have "p = q" by simp
    with True show ?thesis by (intro exI[of _ 0]) simp
  next
    case False
    with Cons.prems have "find_phone_in qs v = Some p" by simp
    from Cons.IH[OF this] obtain i where i: "i < length qs" "qs ! i = p" "field_value p = v"
      "\<forall>j<i. field_value (qs ! j) \<noteq> v" "list_index qs p = Some i" by blast
    from False i(3) have "q \<noteq> p" by auto
    with i False show ?thesis
      by (intro exI[of _ "Suc i"]) (auto simp: less_Suc_eq_0_disj)
  qed
qed

lemma find_phone_in_mem: "find_phone_in ps v = Some p \<Longrightarrow> p \<in> set ps"
  by (induction ps) (auto split: if_splits)

lemma edit_phone_absent:
  "old \<notin> field_value ` set (phones r) \<Longrightarrow>
   edit_phone r old new = (Inl (ValueError ''Old phone number not found.''), r)"
  using find_phone_in_None[of "phones r" old]
  by (simp add: edit_phone_def find_phone_def)

lemma edit_phone_present:
  assumes "old \<in> field_value ` set (phones r)" and "length new = 10" and "list_all isdigit_char new"
  shows "\<exists>i. i < length (phones r) \<and> field_value (phones r ! i) = old
           \<and> (\<forall>j<i. field_value (phones r ! j) \<noteq> old)
           \<and> edit_phone r old new = (Inr (), r\<lparr>phones := (phones r)[i := Field new]\<rparr>)"
proof -
  from assms(1) obtain p where p: "find_phone_in (phones r) old = Some p"
    using find_phone_in_None[of "phones r" old] by (cases "find_phone_in (phones r) old") auto
  from find_phone_in_Some[OF p] obtain i where i: "i < length (phones r)" "phones r ! i = p"
    "field_value p = old" "\<forall>j<i. field_value (phones r ! j) \<noteq> old"
    "list_index (phones r) p = Some i" by blast
  have ok: "Phone_init new = Inr (Field new)"
    using assms(2,3) by (simp add: Phone_init_def str_isdigit_def) auto
  have "edit_phone r old new = (Inr (), r\<lparr>phones := (phones r)[i := Field new]\<rparr>)"
    by (simp add: edit_phone_def find_phone_def p ok i(5))
  with i show ?thesis by blast
qed

lemma phones_valid_init: "Record_init n = Inr r \<Longrightarrow> phones_valid r"
  by (auto simp: Record_init_def Name_init_def phones_valid_def)

lemma phones_valid_remove: "phones_valid r \<Longrightarrow> phones_valid (snd (remove_phone r v))"
  by (auto simp: remove_phone_def phones_valid_def list_all_iff split: option.splits
      dest: notin_set_remove1)

lemma phones_valid_birthday: "phones_valid r \<Longrightarrow> phones_valid (snd (add_birthday r b))"
  by (auto simp: add_birthday_def phones_valid_def split: sum.splits)

lemma phones_valid_add_decimal:
  "phones_valid r \<Longrightarrow> list_all is_decimal_char v \<Longrightarrow> phones_valid (snd (add_phone r v))"
  by (auto simp: add_phone_def phones_valid_def split: sum.splits dest: Phone_init_value)

lemma phones_valid_edit_decimal:
  "phones_valid r \<Longrightarrow> list_all is_decimal_char new \<Longrightarrow>
   phones_valid (snd (edit_phone r old new))"
  by (auto simp: edit_phone_def phones_valid_def list_all_iff split: option.splits sum.splits
      dest!: Phone_init_value set_update_subset_insert[THEN subsetD])

text \<open>
  C6. If no entry of \<open>phones\<close> has the value \<open>old\<close>, edit_phone fails with the ValueError
  "Old phone number not found." (whatever \<open>new\<close> is) and the record is unchanged. If some
  entry has it and \<open>new\<close> is ten digits, the first entry with the value \<open>old\<close> is replaced,
  at its position, by the phone built from \<open>new\<close>; nothing else changes.
\<close>

theorem edit_phone_spec:
  "(old \<notin> field_value ` set (phones r) \<longrightarrow>
      edit_phone r old new = (Inl (ValueError ''Old phone number not found.''), r))
   \<and> (old \<in> field_value ` set (phones r) \<and> length new = 10 \<and> list_all isdigit_char new \<longrightarrow>
      (\<exists>i. i < length (phones r) \<and> field_value (phones r ! i) = old
           \<and> (\<forall>j<i. field_value (phones r ! j) \<noteq> old)
           \<and> edit_phone r old new = (Inr (), r\<lparr>phones := (phones r)[i := Field new]\<rparr>)))"
  using edit_phone_absent[of old r new] edit_phone_present[of old r new] by blast

theorem edit_phone_spec_witness:
  "edit_phone (contact ''Bob'' [''1111111111'', ''2222222222'', ''1111111111''] ''15.03.1990'')
       ''3333333333'' ''0123456789''
     = (Inl (ValueError ''Old phone number not found.''),
        contact ''Bob'' [''1111111111'', ''2222222222'', ''1111111111''] ''15.03.1990'')
   \<and> (\<exists>i. i < 3
          \<and> field_value ([Field ''1111111111'', Field ''2222222222'', Field ''1111111111''] ! i)
              = ''1111111111''
          \<and> edit_phone (contact ''Bob'' [''1111111111'', ''2222222222'', ''1111111111''] ''15.03.1990'')
                ''1111111111'' ''0123456789''
             = (Inr (), \<lparr>name = Field ''Bob'',
                  phones = [Field ''1111111111'', Field ''2222222222'', Field ''1111111111'']
                             [i := Field ''0123456789''],
                  birthday = Some (Field ''15.03.1990'')\<rparr>))"
proof -
  let ?r = "contact ''Bob'' [''1111111111'', ''2222222222'', ''1111111111''] ''15.03.1990''"
  have absent: "''3333333333'' \<notin> field_value ` set (phones ?r)"
    by (simp add: contact_def)
  have present: "''1111111111'' \<in> field_value ` set (phones ?r)"
    by (simp add: contact_def)
  have new: "length ''0123456789'' = 10" "list_all isdigit_char ''0123456789''"
    by (simp_all add: isdigit_char_def is_decimal_char_def)
  from edit_phone_spec[of "''3333333333''" ?r "''0123456789''"] absent
  have a: "edit_phone ?r ''3333333333'' ''0123456789''
             = (Inl (ValueError ''Old phone number not found.''), ?r)"
    by blast
  from edit_phone_spec[of "''1111111111''" ?r "''0123456789''"] present new
  obtain i where "i < length (phones ?r)" "field_value (phones ?r ! i) = ''1111111111''"
    "edit_phone ?r ''1111111111'' ''0123456789''
       = (Inr (), ?r\<lparr>phones := (phones ?r)[i := Field ''0123456789'']\<rparr>)"
    by blast
  then have b: "\<exists>i. i < 3
          \<and> field_value ([Field ''1111111111'', Field ''2222222222'', Field ''1111111111''] ! i)
              = ''1111111111''
          \<and> edit_phone ?r ''1111111111'' ''0123456789''
             = (Inr (), \<lparr>name = Field ''Bob'',
                  phones = [Field ''1111111111'', Field ''2222222222'', Field ''1111111111'']
                             [i := Field ''0123456789''],
                  birthday = Some (Field ''15.03.1990'')\<rparr>)"
    by (intro exI[of _ i]) (simp add: contact_def)
  from a b show ?thesis by blast
qed

text \<open>
  C8. Every entry of a Record's \<open>phones\<close> is expected to hold exactly ten digits, as a
  PhoneNumber does, after every operation. add_phone and edit_phone build the phone with
  Phone first, but Phone accepts ten times SUPERSCRIPT TWO: from a record whose entries
  are all ten decimal digits, both operations succeed and leave an entry that is not.
\<close>

theorem phones_invariant_broken_by_superscripts:
  "phones_valid (contact ''Bob'' [''1111111111''] ''15.03.1990'')
   \<and> add_phone (contact ''Bob'' [''1111111111''] ''15.03.1990'') superscript_phone
       = (Inr (), contact ''Bob'' [''1111111111'', superscript_phone] ''15.03.1990'')
   \<and> \<not> phones_valid
         (snd (add_phone (contact ''Bob'' [''1111111111''] ''15.03.1990'') superscript_phone))
   \<and> edit_phone (contact ''Bob'' [''1111111111''] ''15.03.1990'') ''1111111111''
         superscript_phone
       = (Inr (), contact ''Bob'' [superscript_phone] ''15.03.1990'')
   \<and> \<not> phones_valid
         (snd (edit_phone (contact ''Bob'' [''1111111111''] ''15.03.1990'') ''1111111111''
                 superscript_phone))"
proof -
  let ?r = "contact ''Bob'' [''1111111111''] ''15.03.1990''"
  have ok: "Phone_init superscript_phone = Inr (Field superscript_phone)"
    by (simp add: Phone_init_def superscript_phone_def str_isdigit_def isdigit_char_def
        list_all_iff)
  have v: "phones_valid ?r"
    by (simp add: phones_valid_def contact_def is_decimal_char_def)
  have a: "add_phone ?r superscript_phone
       = (Inr (), contact ''Bob'' [''1111111111'', superscript_phone] ''15.03.1990'')"
    by (simp add: add_phone_def ok contact_def)
  have e: "edit_phone ?r ''1111111111'' superscript_phone
       = (Inr (), contact ''Bob'' [superscript_phone] ''15.03.1990'')"
    by (simp add: edit_phone_def find_phone_def ok contact_def)
  have n1: "\<not> phones_valid (contact ''Bob'' [''1111111111'', superscript_phone] ''15.03.1990'')"
    by (simp add: phones_valid_def contact_def superscript_phone_def is_decimal_char_def
        list_all_iff)
  have n2: "\<not> phones_valid (contact ''Bob'' [superscript_phone] ''15.03.1990'')"
    by (simp add: phones_valid_def contact_def superscript_phone_def is_decimal_char_def
        list_all_iff)
  from v a e n1 n2 show ?thesis by simp
qed

section \<open>The birthday query\<close>

lemma check_date_fields_Inl: "check_date_fields y m d = Inl e \<Longrightarrow> \<exists>msg. e = ValueError msg"
  by (auto simp: check_date_fields_def split: if_splits)

lemma replace_year_Inl: "replace_year bd y = Inl e \<Longrightarrow> \<exists>msg. e = ValueError msg"
  unfolding replace_year_def by (rule check_date_fields_Inl)

lemma get_congrats_date_this_year_fails:
  assumes "birthday r = Some b" "to_date b = Inr bd" "replace_year bd (year today) = Inl e"
  shows "get_congrats_date r today = Inr None"
  using assms replace_year_Inl[OF assms(3)] by (auto simp: get_congrats_date_def)

lemma get_congrats_date_next_year_fails:
  assumes "birthday r = Some b" "to_date b = Inr bd" "replace_year bd (year today) = Inr c"
    "date_lt c today" "replace_year bd (year today + 1) = Inl e"
  shows "get_congrats_date r today = Inr None"
  using assms replace_year_Inl[OF assms(5)] by (auto simp: get_congrats_date_def)

lemma feb29_needs_leap:
  assumes "month bd = 2" "day bd = 29" "\<not> is_leap y"
  shows "\<exists>e. replace_year bd y = Inl e"
  using assms by (simp add: replace_year_def check_date_fields_def days_in_month_def DAYS_IN_MONTH_def)

lemma feb29_is_leap:
  assumes "month bd = 2" "day bd = 29" "replace_year bd y = Inr c"
  shows "is_leap y"
  using feb29_needs_leap[OF assms(1,2), of y] assms(3) by auto

lemma leap_next: "is_leap y \<Longrightarrow> \<not> is_leap (y + 1)"
proof -
  assume "is_leap y"
  then have "y mod 4 = 0" by (simp add: is_leap_def)
  moreover have "(y + 1) mod 4 = (y mod 4 + 1) mod 4" by (simp only: mod_add_left_eq)
  ultimately have "(y + 1) mod 4 = 1" by simp
  then show ?thesis by (simp add: is_leap_def)
qed

lemma feb29_next_year_fails:
  assumes "month bd = 2" "day bd = 29" "replace_year bd y = Inr c"
  shows "\<exists>e. replace_year bd (y + 1) = Inl e"
  using feb29_needs_leap[OF assms(1,2) leap_next[OF feb29_is_leap[OF assms]]] .

lemma upcoming_loop_skip:
  "get_congrats_date r today = Inr None \<Longrightarrow>
   upcoming_loop env today end_day (r # rs) acc = upcoming_loop env today end_day rs acc"
  by simp

lemma upcoming_loop_mem:
  "upcoming_loop env today end_day rs acc = Inr res \<Longrightarrow> e \<in> set res \<Longrightarrow>
   e \<in> set acc \<or>
   (\<exists>r c. r \<in> set rs \<and> get_congrats_date r today = Inr (Some c)
        \<and> date_le today c \<and> date_le c end_day
        \<and> e = [(''name'', field_value (name r)), (''birthday'', strftime_dmY env c)])"
proof (induction rs arbitrary: acc)
  case Nil
  then show ?case by simp
next
  case (Cons r rs)
  show ?case
  proof (cases "get_congrats_date r today")
    case (Inl err)
    with Cons.prems show ?thesis by simp
  next
    case (Inr oc)
    show ?thesis
    proof (cases oc)
      case None
      with Inr Cons.prems have "upcoming_loop env today end_day rs acc = Inr res" by simp
      from Cons.IH[OF this Cons.prems(2)] show ?thesis by auto
    next
      case (Some c)
      show ?thesis
      proof (cases "date_le today c \<and> date_le c end_day")
        case True
        with Inr Some Cons.prems have "upcoming_loop env today end_day rs
            (acc @ [[(''name'', field_value (name r)), (''birthday'', strftime_dmY env c)]]) = Inr res"
          by simp
        from Cons.IH[OF this Cons.prems(2)] Inr Some True show ?thesis by auto
      next
        case False
        with Inr Some Cons.prems have "upcoming_loop env today end_day rs acc = Inr res" by auto
        from Cons.IH[OF this Cons.prems(2)] show ?thesis by auto
      qed
    qed
  qed
qed

lemma upcoming_loop_env:
  "strftime_Y e1 = strftime_Y e2 \<Longrightarrow>
   upcoming_loop e1 today end_day rs acc = upcoming_loop e2 today end_day rs acc"
  by (induction rs arbitrary: acc) (auto simp: strftime_dmY_def split: sum.splits option.splits)


lemma to_date_scenario: "to_date (Field ''16.03.1990'') = Inr \<lparr>year = 1990, month = 3, day = 16\<rparr>"
  unfolding to_date_def field.sel
  by (rule strptime_strict) (simp_all add: is_decimal_char_def real_calendar_date_def month_length_def)

lemma scenario_facts:
  "replace_year \<lparr>year = 1990, month = 3, day = 16\<rparr> 2024 = Inr \<lparr>year = 2024, month = 3, day = 16\<rparr>"
  "weekday \<lparr>year = 2024, month = 3, day = 16\<rparr> = 5"
  "move_to_monday_if_weekend \<lparr>year = 2024, month = 3, day = 16\<rparr>
     = Inr \<lparr>year = 2024, month = 3, day = 18\<rparr>"
  "add_days \<lparr>year = 2024, month = 3, day = 10\<rparr> 7 = Inr \<lparr>year = 2024, month = 3, day = 17\<rparr>"
  by code_simp+

lemma scenario_congrats:
  assumes "birthday r = Some (Field ''16.03.1990'')"
  shows "get_congrats_date r \<lparr>year = 2024, month = 3, day = 10\<rparr>
         = Inr (Some \<lparr>year = 2024, month = 3, day = 18\<rparr>)"
  by (simp add: get_congrats_date_def assms to_date_scenario scenario_facts date_lt_def)

lemma scenario_excluded:
  assumes "birthday r = Some (Field ''16.03.1990'')"
    and "date_today env = \<lparr>year = 2024, month = 3, day = 10\<rparr>"
  shows "fst (get_upcoming_birthdays env [(k, r)]) = Inr []"
  by (simp add: get_upcoming_birthdays_def assms(2) scenario_facts scenario_congrats[OF assms(1)]
      date_le_def date_lt_def)


lemma upcoming_loop_acc:
  "upcoming_loop env today end_day rs acc = Inr res \<Longrightarrow> set acc \<subseteq> set res"
proof (induction rs arbitrary: acc)
  case Nil
  then show ?case by simp
next
  case (Cons r rs)
  then show ?case
    by (fastforce split: sum.splits option.splits if_splits)
qed

lemma upcoming_loop_includes:
  "upcoming_loop env today end_day rs acc = Inr res \<Longrightarrow> r \<in> set rs \<Longrightarrow>
   get_congrats_date r today = Inr (Some c) \<Longrightarrow> date_le today c \<Longrightarrow> date_le c end_day \<Longrightarrow>
   [(''name'', field_value (name r)), (''birthday'', strftime_dmY env c)] \<in> set res"
proof (induction rs arbitrary: acc)
  case Nil
  then show ?case by simp
next
  case (Cons q qs)
  show ?case
  proof (cases "q = r")
    case True
    with Cons.prems have "upcoming_loop env today end_day qs
        (acc @ [[(''name'', field_value (name r)), (''birthday'', strftime_dmY env c)]]) = Inr res"
      by simp
    from upcoming_loop_acc[OF this] show ?thesis by simp
  next
    case False
    with Cons.prems have r: "r \<in> set qs" by simp
    from Cons.prems(1) obtain acc' where "upcoming_loop env today end_day qs acc' = Inr res"
      by (auto split: sum.splits option.splits if_splits)
    from Cons.IH[OF this r Cons.prems(3-5)] show ?thesis .
  qed
qed

lemma window_ends_included:
  "fst (get_upcoming_birthdays (env_at 2024 3 11)
          [(''Ann'', contact ''Ann'' [] ''11.03.1990''), (''Ben'', contact ''Ben'' [] ''18.03.1990''),
           (''Cat'', contact ''Cat'' [] ''19.03.1990'')])
   = Inr [[(''name'', ''Ann''), (''birthday'', ''11.03.2024'')],
          [(''name'', ''Ben''), (''birthday'', ''18.03.2024'')]]"
  by code_simp

text \<open>
  C3. An entry is in the list that get_upcoming_birthdays returns only if it comes from a
  record of the book whose weekend-shifted congratulation date lies in [today, today + 7],
  both ends included. In particular, for a record whose birthday is 16.03.1990 and a clock
  that reads 2024-03-10: the candidate 16.03.2024 is a Saturday (weekday 5), it shifts to
  Monday 18.03.2024, the window ends on 17.03.2024, and the record is left out.
\<close>

theorem upcoming_only_within_window:
  "(fst (get_upcoming_birthdays env book) = Inr res \<and> e \<in> set res \<longrightarrow>
      (\<exists>k r c end_day. (k, r) \<in> set book
          \<and> add_days (date_today env) 7 = Inr end_day
          \<and> get_congrats_date r (date_today env) = Inr (Some c)
          \<and> date_le (date_today env) c \<and> date_le c end_day
          \<and> e = [(''name'', field_value (name r)), (''birthday'', strftime_dmY env c)]))
   \<and> (birthday r16 = Some (Field ''16.03.1990'')
        \<and> date_today env16 = \<lparr>year = 2024, month = 3, day = 10\<rparr> \<longrightarrow>
          replace_year \<lparr>year = 1990, month = 3, day = 16\<rparr> 2024
            = Inr \<lparr>year = 2024, month = 3, day = 16\<rparr>
        \<and> weekday \<lparr>year = 2024, month = 3, day = 16\<rparr> = 5
        \<and> get_congrats_date r16 (date_today env16)
            = Inr (Some \<lparr>year = 2024, month = 3, day = 18\<rparr>)
        \<and> add_days (date_today env16) 7 = Inr \<lparr>year = 2024, month = 3, day = 17\<rparr>
        \<and> \<not> date_le \<lparr>year = 2024, month = 3, day = 18\<rparr> \<lparr>year = 2024, month = 3, day = 17\<rparr>
        \<and> fst (get_upcoming_birthdays env16 [(k16, r16)]) = Inr [])"
proof (intro conjI impI)
  assume h: "fst (get_upcoming_birthdays env book) = Inr res \<and> e \<in> set res"
  then obtain end_day where ed: "add_days (date_today env) 7 = Inr end_day"
    by (cases "add_days (date_today env) 7") (simp_all add: get_upcoming_birthdays_def)
  with h have "upcoming_loop env (date_today env) end_day (map snd book) [] = Inr res"
    by (simp add: get_upcoming_birthdays_def)
  from upcoming_loop_mem[OF this, of e] h
  have "\<exists>r c. r \<in> set (map snd book) \<and> get_congrats_date r (date_today env) = Inr (Some c)
          \<and> date_le (date_today env) c \<and> date_le c end_day
          \<and> e = [(''name'', field_value (name r)), (''birthday'', strftime_dmY env c)]"
    by simp
  then obtain r c where rc: "r \<in> set (map snd book)"
    "get_congrats_date r (date_today env) = Inr (Some c)"
    "date_le (date_today env) c" "date_le c end_day"
    "e = [(''name'', field_value (name r)), (''birthday'', strftime_dmY env c)]"
    by blast
  from rc(1) obtain k where "(k, r) \<in> set book" by auto
  with ed rc show "\<exists>k r c end_day. (k, r) \<in> set book
          \<and> add_days (date_today env) 7 = Inr end_day
          \<and> get_congrats_date r (date_today env) = Inr (Some c)
          \<and> date_le (date_today env) c \<and> date_le c end_day
          \<and> e = [(''name'', field_value (name r)), (''birthday'', strftime_dmY env c)]"
    by blast
next
  assume h: "birthday r16 = Some (Field ''16.03.1990'')
        \<and> date_today env16 = \<lparr>year = 2024, month = 3, day = 10\<rparr>"
  show "replace_year \<lparr>year = 1990, month = 3, day = 16\<rparr> 2024
            = Inr \<lparr>year = 2024, month = 3, day = 16\<rparr>"
    by (rule scenario_facts)
  show "weekday \<lparr>year = 2024, month = 3, day = 16\<rparr> = 5"
    by (rule scenario_facts)
  show "get_congrats_date r16 (date_today env16)
            = Inr (Some \<lparr>year = 2024, month = 3, day = 18\<rparr>)"
    using h scenario_congrats[of r16] by simp
  show "add_days (date_today env16) 7 = Inr \<lparr>year = 2024, month = 3, day = 17\<rparr>"
    using h by (simp add: scenario_facts)
  show "\<not> date_le \<lparr>year = 2024, month = 3, day = 18\<rparr> \<lparr>year = 2024, month = 3, day = 17\<rparr>"
    by (simp add: date_le_def date_lt_def)
  show "fst (get_upcoming_birthdays env16 [(k16, r16)]) = Inr []"
    using h scenario_excluded[of r16 env16 k16] by simp
qed

theorem upcoming_only_within_window_witness:
  "fst (get_upcoming_birthdays (env_at 2024 3 10)
          [(''Alice'', contact ''Alice'' [] ''15.03.1990'')])
     = Inr [[(''name'', ''Alice''), (''birthday'', ''15.03.2024'')]]
   \<and> (\<exists>c end_day.
          get_congrats_date (contact ''Alice'' [] ''15.03.1990'') (date_today (env_at 2024 3 10))
            = Inr (Some c)
        \<and> add_days (date_today (env_at 2024 3 10)) 7 = Inr end_day
        \<and> date_le (date_today (env_at 2024 3 10)) c \<and> date_le c end_day
        \<and> strftime_dmY (env_at 2024 3 10) c = ''15.03.2024'')
   \<and> fst (get_upcoming_birthdays (env_at 2024 3 10)
          [(''Alice'', contact ''Alice'' [] ''16.03.1990'')]) = Inr []"
proof -
  let ?env = "env_at 2024 3 10"
  let ?e = "[(''name'', ''Alice''), (''birthday'', ''15.03.2024'')]"
  have run: "fst (get_upcoming_birthdays ?env [(''Alice'', contact ''Alice'' [] ''15.03.1990'')])
     = Inr [?e]"
    by code_simp
  from upcoming_only_within_window[of ?env
      "[(''Alice'', contact ''Alice'' [] ''15.03.1990'')]" "[?e]" ?e
      "contact ''Alice'' [] ''16.03.1990''" ?env "''Alice''"] run
  have inc: "\<exists>k r c end_day. (k, r) \<in> set [(''Alice'', contact ''Alice'' [] ''15.03.1990'')]
          \<and> add_days (date_today ?env) 7 = Inr end_day
          \<and> get_congrats_date r (date_today ?env) = Inr (Some c)
          \<and> date_le (date_today ?env) c \<and> date_le c end_day
          \<and> ?e = [(''name'', field_value (name r)), (''birthday'', strftime_dmY ?env c)]"
    by simp
  then have inc': "\<exists>c end_day.
          get_congrats_date (contact ''Alice'' [] ''15.03.1990'') (date_today ?env) = Inr (Some c)
        \<and> add_days (date_today ?env) 7 = Inr end_day
        \<and> date_le (date_today ?env) c \<and> date_le c end_day
        \<and> strftime_dmY ?env c = ''15.03.2024''"
    by auto
  have "birthday (contact ''Alice'' [] ''16.03.1990'') = Some (Field ''16.03.1990'')
        \<and> date_today ?env = \<lparr>year = 2024, month = 3, day = 10\<rparr>"
    by (simp add: contact_def env_at_def)
  with upcoming_only_within_window[of ?env
      "[(''Alice'', contact ''Alice'' [] ''15.03.1990'')]" "[?e]" ?e
      "contact ''Alice'' [] ''16.03.1990''" ?env "''Alice''"]
  have exc: "fst (get_upcoming_birthdays ?env [(''Alice'', contact ''Alice'' [] ''16.03.1990'')])
     = Inr []"
    by blast
  from run inc' exc show ?thesis by blast
qed

text \<open>
  C4. For a record whose birthday is a 29 February: when the birthday cannot be put into
  today's year, which is the case whenever that year is not a leap year, the record has
  no congratulation date and the loop passes over it; and when the date in today's year
  exists but lies before today, putting it into the next year is impossible (the year
  after a leap year is none), and the record is passed over as well.
\<close>

theorem feb29_skipped:
  assumes "birthday r = Some b" and "to_date b = Inr bd" and "month bd = 2" and "day bd = 29"
  shows "(replace_year bd (year today) = Inl e1 \<longrightarrow>
            get_congrats_date r today = Inr None
          \<and> upcoming_loop env today end_day (r # rs) acc = upcoming_loop env today end_day rs acc)
       \<and> (\<not> is_leap (year today) \<longrightarrow> (\<exists>e. replace_year bd (year today) = Inl e))
       \<and> (replace_year bd (year today) = Inr c \<and> date_lt c today \<longrightarrow>
            (\<exists>e. replace_year bd (year today + 1) = Inl e)
          \<and> get_congrats_date r today = Inr None
          \<and> upcoming_loop env today end_day (r # rs) acc = upcoming_loop env today end_day rs acc)"
proof (intro conjI impI)
  assume h: "replace_year bd (year today) = Inl e1"
  show n: "get_congrats_date r today = Inr None"
    by (rule get_congrats_date_this_year_fails[OF assms(1,2) h])
  show "upcoming_loop env today end_day (r # rs) acc = upcoming_loop env today end_day rs acc"
    by (rule upcoming_loop_skip[OF n])
next
  assume "\<not> is_leap (year today)"
  then show "\<exists>e. replace_year bd (year today) = Inl e"
    by (rule feb29_needs_leap[OF assms(3,4)])
next
  assume h: "replace_year bd (year today) = Inr c \<and> date_lt c today"
  then obtain e where e: "replace_year bd (year today + 1) = Inl e"
    using feb29_next_year_fails[OF assms(3,4), of "year today" c] by blast
  then show "\<exists>e. replace_year bd (year today + 1) = Inl e" ..
  show n: "get_congrats_date r today = Inr None"
    using get_congrats_date_next_year_fails[OF assms(1,2) _ _ e] h by blast
  show "upcoming_loop env today end_day (r # rs) acc = upcoming_loop env today end_day rs acc"
    by (rule upcoming_loop_skip[OF n])
qed

theorem feb29_skipped_witness:
  "to_date (Field ''29.02.1992'') = Inr \<lparr>year = 1992, month = 2, day = 29\<rparr>
   \<and> get_congrats_date (contact ''Leap'' [] ''29.02.1992'') \<lparr>year = 2023, month = 3, day = 10\<rparr>
       = Inr None
   \<and> replace_year \<lparr>year = 1992, month = 2, day = 29\<rparr> 2024
       = Inr \<lparr>year = 2024, month = 2, day = 29\<rparr>
   \<and> date_lt \<lparr>year = 2024, month = 2, day = 29\<rparr> \<lparr>year = 2024, month = 3, day = 10\<rparr>
   \<and> get_congrats_date (contact ''Leap'' [] ''29.02.1992'') \<lparr>year = 2024, month = 3, day = 10\<rparr>
       = Inr None
   \<and> fst (get_upcoming_birthdays (env_at 2024 3 10)
            [(''Leap'', contact ''Leap'' [] ''29.02.1992'')]) = Inr []"
proof -
  let ?r = "contact ''Leap'' [] ''29.02.1992''"
  let ?bd = "\<lparr>year = 1992, month = 2, day = 29\<rparr>"
  have b: "birthday ?r = Some (Field ''29.02.1992'')" by (simp add: contact_def)
  have d: "to_date (Field ''29.02.1992'') = Inr ?bd" by code_simp
  have m: "month ?bd = 2" "day ?bd = 29" by simp_all
  have nl: "\<not> is_leap (year \<lparr>year = 2023, month = 3, day = 10\<rparr>)" by (simp add: is_leap_def)
  have ry: "replace_year ?bd (year \<lparr>year = 2024, month = 3, day = 10\<rparr>)
              = Inr \<lparr>year = 2024, month = 2, day = 29\<rparr>"
    by code_simp
  have lt: "date_lt \<lparr>year = 2024, month = 2, day = 29\<rparr> \<lparr>year = 2024, month = 3, day = 10\<rparr>"
    by (simp add: date_lt_def)
  from feb29_skipped[OF b d m, where today = "\<lparr>year = 2023, month = 3, day = 10\<rparr>"] nl
  have a1: "get_congrats_date ?r \<lparr>year = 2023, month = 3, day = 10\<rparr> = Inr None"
    by blast
  from feb29_skipped[OF b d m, where today = "\<lparr>year = 2024, month = 3, day = 10\<rparr>"
      and c = "\<lparr>year = 2024, month = 2, day = 29\<rparr>" and env = "env_at 2024 3 10"
      and end_day = "\<lparr>year = 2024, month = 3, day = 17\<rparr>" and rs = "[]" and acc = "[]"] ry lt
  have a2: "get_congrats_date ?r \<lparr>year = 2024, month = 3, day = 10\<rparr> = Inr None"
    and a3: "upcoming_loop (env_at 2024 3 10) \<lparr>year = 2024, month = 3, day = 10\<rparr>
               \<lparr>year = 2024, month = 3, day = 17\<rparr> [?r] [] = Inr []"
    by simp_all
  have "add_days \<lparr>year = 2024, month = 3, day = 10\<rparr> 7 = Inr \<lparr>year = 2024, month = 3, day = 17\<rparr>"
    by (rule scenario_facts)
  with a3 have a4: "fst (get_upcoming_birthdays (env_at 2024 3 10) [(''Leap'', ?r)]) = Inr []"
    by (simp add: get_upcoming_birthdays_def env_at_def)
  from d a1 ry lt a2 a4 show ?thesis by simp
qed

text \<open>
  C1. get_upcoming_birthdays has no parameter for today: it reads the date from the
  ambient clock. With one and the same book, a clock that reads 2024-03-10 gives a list
  with one entry and a clock that reads 2024-03-20 gives the empty list.
\<close>

theorem upcoming_depends_on_clock:
  "fst (get_upcoming_birthdays (env_at 2024 3 10)
          [(''Alice'', contact ''Alice'' [] ''15.03.1990'')])
     = Inr [[(''name'', ''Alice''), (''birthday'', ''15.03.2024'')]]
   \<and> fst (get_upcoming_birthdays (env_at 2024 3 20)
          [(''Alice'', contact ''Alice'' [] ''15.03.1990'')])
     = Inr []
   \<and> get_upcoming_birthdays (env_at 2024 3 10)
          [(''Alice'', contact ''Alice'' [] ''15.03.1990'')]
     \<noteq> get_upcoming_birthdays (env_at 2024 3 20)
          [(''Alice'', contact ''Alice'' [] ''15.03.1990'')]"
proof -
  have a: "fst (get_upcoming_birthdays (env_at 2024 3 10)
          [(''Alice'', contact ''Alice'' [] ''15.03.1990'')])
     = Inr [[(''name'', ''Alice''), (''birthday'', ''15.03.2024'')]]"
    by code_simp
  have b: "fst (get_upcoming_birthdays (env_at 2024 3 20)
          [(''Alice'', contact ''Alice'' [] ''15.03.1990'')])
     = Inr []"
    by code_simp
  from a b show ?thesis by auto
qed

text \<open>
  C1, as the code has it. The result of get_upcoming_birthdays (the list, or the error
  raised) is determined by the book and by what the environment supplies: the date the
  clock reads when the call starts and the rendering of \<open>%Y\<close>. Two runs with the same
  book in environments that agree on these return the same, whatever else differs.
\<close>

theorem upcoming_determined_by_clock_date:
  "date_today e1 = date_today e2 \<Longrightarrow> strftime_Y e1 = strftime_Y e2 \<Longrightarrow>
   get_upcoming_birthdays e1 book = get_upcoming_birthdays e2 book"
  using upcoming_loop_env[of e1 e2]
  by (simp add: get_upcoming_birthdays_def Let_def split: sum.splits)

theorem upcoming_determined_by_clock_date_witness:
  "get_upcoming_birthdays (env_at 2024 3 10) [(''Alice'', contact ''Alice'' [] ''15.03.1990'')]
   = get_upcoming_birthdays
       \<lparr>date_today = \<lparr>year = 2024, month = 3, day = 10\<rparr>, strftime_Y = zero_pad4, \<dots> = True\<rparr>
       [(''Alice'', contact ''Alice'' [] ''15.03.1990'')]"
  by (rule upcoming_determined_by_clock_date) (simp_all add: env_at_def)

section \<open>The birthday query leaves the book alone\<close>

text \<open>
  C10. get_upcoming_birthdays is read-only: whatever the clock reads and whether the call
  returns a list or raises, the book after the call is the book before it, so every
  lookup by name finds the same record with the same phones and the same birthday.
\<close>

theorem get_upcoming_birthdays_read_only:
  "snd (get_upcoming_birthdays env book) = book
   \<and> find_record (snd (get_upcoming_birthdays env book)) n = find_record book n
   \<and> map (phones \<circ> snd) (snd (get_upcoming_birthdays env book)) = map (phones \<circ> snd) book
   \<and> map (birthday \<circ> snd) (snd (get_upcoming_birthdays env book)) = map (birthday \<circ> snd) book"
proof -
  have "snd (get_upcoming_birthdays env book) = book"
    by (simp add: get_upcoming_birthdays_def Let_def split: sum.split)
  then show ?thesis by simp
qed

theorem get_upcoming_birthdays_read_only_witness:
  "snd (get_upcoming_birthdays (env_at 2024 3 10)
          [(''Alice'', contact ''Alice'' [''0123456789''] ''15.03.1990'')])
     = [(''Alice'', contact ''Alice'' [''0123456789''] ''15.03.1990'')]"
  using get_upcoming_birthdays_read_only
    [of "env_at 2024 3 10" "[(''Alice'', contact ''Alice'' [''0123456789''] ''15.03.1990'')]"]
  by simp

end
